theory Spec2Isabelle
  imports Main
begin

section \<open>Python values and built-ins used by seller.py and market.py\<close>

text \<open>
  A Python \<open>str\<close> is represented by the list of the bytes of its UTF-8 encoding
  (\<^typ>\<open>string\<close>). The string operations the two modules use (equality,
  membership in a list, \<open>split(".")\<close>, deleting the characters outside \<open>0-9\<close>)
  give the same result on the encoding as on the code points, because every byte of a
  multi-byte sequence is at least \<open>0x80\<close> and so is neither \<open>.\<close> nor a digit.

  The exceptions that the modelled code can raise are values of \<open>error\<close>; a call that
  may raise returns \<open>error + 'a\<close> with \<open>Inl\<close> for the exception.
\<close>

datatype error = ValueError | TypeError | AttributeError | IndexError
  | HTTPError | ReadTimeout | ConnectionError

text \<open>
  A feed row is a dict produced by \<open>pandas.read_excel(...).to_dict(orient="records")\<close>;
  the code reads three keys with \<open>dict.get\<close>, which gives \<open>None\<close> for a missing key.
  The keys are Russian words (code, quantity, price); the fields below carry their
  transliterations \<open>Kod\<close>, \<open>Kolichestvo\<close> and \<open>Tsena\<close>. The value held by a cell is a string or an
  integer (floating-point cells are outside this model).
\<close>

datatype cell = PStr string | PInt int | PNone

record watch =
  Kod :: cell
  Kolichestvo :: cell
  Tsena :: cell

subsection \<open>\<open>str(x)\<close>\<close>

definition digit_char :: "nat \<Rightarrow> char" where
  "digit_char d = ''0123456789'' ! d"

function nat_digits :: "nat \<Rightarrow> string" where
  "nat_digits n =
     (if n < 10 then [digit_char n] else nat_digits (n div 10) @ [digit_char (n mod 10)])"
  by pat_completeness auto
termination
  by (relation "measure id") auto

declare nat_digits.simps [simp del]

definition int_str :: "int \<Rightarrow> string" where
  "int_str i = (if i < 0 then CHR ''-'' # nat_digits (nat (- i)) else nat_digits (nat i))"

fun py_str :: "cell \<Rightarrow> string" where
  "py_str (PStr s) = s"
| "py_str (PInt i) = int_str i"
| "py_str PNone = ''None''"

subsection \<open>\<open>int(x)\<close>\<close>

text \<open>
  \<open>int\<close> of a string: surrounding whitespace is stripped, one sign is allowed, then
  comes a non-empty run of decimal digits in which single underscores may separate
  digits. Anything else raises \<open>ValueError\<close>. Only the ASCII digits and ASCII
  whitespace are recognised here (CPython also accepts the other decimal digits and
  spaces of the Unicode database); the interpreter's configurable limit on the number
  of digits is not modelled. \<open>int(None)\<close> raises \<open>TypeError\<close>.
\<close>

definition in_0_9 :: "char \<Rightarrow> bool" where
  "in_0_9 c = (48 \<le> (of_char c :: nat) \<and> (of_char c :: nat) \<le> 57)"

definition digit_val :: "char \<Rightarrow> nat" where
  "digit_val c = of_char c - 48"

definition is_space :: "char \<Rightarrow> bool" where
  "is_space c = (let k = (of_char c :: nat) in (9 \<le> k \<and> k \<le> 13) \<or> (28 \<le> k \<and> k \<le> 32))"

definition strip :: "string \<Rightarrow> string" where
  "strip s = rev (dropWhile is_space (rev (dropWhile is_space s)))"

fun digits_tail :: "nat \<Rightarrow> string \<Rightarrow> nat option" where
  "digits_tail acc [] = Some acc"
| "digits_tail acc (c # cs) =
     (if in_0_9 c then digits_tail (acc * 10 + digit_val c) cs
      else if c = CHR ''_'' then
        (case cs of
           [] \<Rightarrow> None
         | d # ds \<Rightarrow> if in_0_9 d then digits_tail (acc * 10 + digit_val d) ds else None)
      else None)"

fun digits_value :: "string \<Rightarrow> nat option" where
  "digits_value [] = None"
| "digits_value (c # cs) = (if in_0_9 c then digits_tail (digit_val c) cs else None)"

definition int_of_str :: "string \<Rightarrow> error + int" where
  "int_of_str s =
     (case strip s of
        [] \<Rightarrow> Inl ValueError
      | c # cs \<Rightarrow>
          if c = CHR ''-'' then
            (case digits_value cs of None \<Rightarrow> Inl ValueError | Some v \<Rightarrow> Inr (- int v))
          else if c = CHR ''+'' then
            (case digits_value cs of None \<Rightarrow> Inl ValueError | Some v \<Rightarrow> Inr (int v))
          else
            (case digits_value (c # cs) of None \<Rightarrow> Inl ValueError | Some v \<Rightarrow> Inr (int v)))"

fun py_int :: "cell \<Rightarrow> error + int" where
  "py_int (PStr s) = int_of_str s"
| "py_int (PInt i) = Inr i"
| "py_int PNone = Inl TypeError"

subsection \<open>\<open>str.split(sep)\<close>, indexing, \<open>re.sub\<close>, \<open>range\<close>, slicing\<close>

text \<open>\<open>s.split(c)\<close> for a one-character separator: the pieces between the separators.\<close>

fun str_split :: "char \<Rightarrow> string \<Rightarrow> string list" where
  "str_split sep [] = [[]]"
| "str_split sep (c # cs) =
     (if c = sep then [] # str_split sep cs
      else (case str_split sep cs of
              [] \<Rightarrow> [[c]]
            | p # ps \<Rightarrow> (c # p) # ps))"

text \<open>\<open>xs[0]\<close> raises \<open>IndexError\<close> on an empty list.\<close>

definition first :: "'a list \<Rightarrow> error + 'a" where
  "first xs = (case xs of [] \<Rightarrow> Inl IndexError | x # _ \<Rightarrow> Inr x)"

text \<open>
  \<open>re.sub("[^0-9]", "", s)\<close>: every character matched by the class \<open>[^0-9]\<close> (the
  characters outside the range from \<open>0\<close> to \<open>9\<close>) is replaced by the empty string.
\<close>

fun re_sub_non_0_9 :: "string \<Rightarrow> string" where
  "re_sub_non_0_9 [] = []"
| "re_sub_non_0_9 (c # cs) = (if \<not> in_0_9 c then re_sub_non_0_9 cs else c # re_sub_non_0_9 cs)"

text \<open>\<open>range(start, stop, step)\<close> as the list of its values; step \<open>0\<close> raises \<open>ValueError\<close>.\<close>

function range_up :: "int \<Rightarrow> int \<Rightarrow> int \<Rightarrow> int list" where
  "range_up i stop step =
     (if 0 < step \<and> i < stop then i # range_up (i + step) stop step else [])"
  by pat_completeness auto
termination
  by (relation "measure (\<lambda>(i, stop, step). nat (stop - i))") auto

declare range_up.simps [simp del]

function range_down :: "int \<Rightarrow> int \<Rightarrow> int \<Rightarrow> int list" where
  "range_down i stop step =
     (if step < 0 \<and> stop < i then i # range_down (i + step) stop step else [])"
  by pat_completeness auto
termination
  by (relation "measure (\<lambda>(i, stop, step). nat (i - stop))") auto

declare range_down.simps [simp del]

definition py_range :: "int \<Rightarrow> int \<Rightarrow> int \<Rightarrow> error + int list" where
  "py_range start stop step =
     (if step = 0 then Inl ValueError
      else if 0 < step then Inr (range_up start stop step)
      else Inr (range_down start stop step))"

text \<open>\<open>xs[i:j]\<close>: a negative index counts from the end, and both are clamped to the list.\<close>

definition slice_index :: "int \<Rightarrow> int \<Rightarrow> int" where
  "slice_index n k = (if k < 0 then max 0 (k + n) else min k n)"

definition slice :: "'a list \<Rightarrow> int \<Rightarrow> int \<Rightarrow> 'a list" where
  "slice xs i j =
     (let n = int (length xs); a = slice_index n i; b = slice_index n j
      in take (nat (b - a)) (drop (nat a) xs))"

section \<open>seller.py: \<open>price_conversion\<close> and \<open>divide\<close>\<close>

text \<open>
  \<open>return re.sub("[^0-9]", "", price.split(".")[0])\<close>. The argument is whatever the
  caller passes; a value that is not a string has no \<open>split\<close> attribute.
\<close>

fun price_conversion :: "cell \<Rightarrow> error + string" where
  "price_conversion (PStr price) =
     (case first (str_split CHR ''.'' price) of
        Inl e \<Rightarrow> Inl e
      | Inr p \<Rightarrow> Inr (re_sub_non_0_9 p))"
| "price_conversion (PInt i) = Inl AttributeError"
| "price_conversion PNone = Inl AttributeError"

text \<open>
  \<open>for i in range(0, len(lst), n): yield lst[i : i + n]\<close>. The generator is always
  consumed by \<open>list(divide(...))\<close>; \<open>divide\<close> below is that list, or the exception
  raised while it is built.
\<close>

definition divide :: "'a list \<Rightarrow> int \<Rightarrow> error + 'a list list" where
  "divide lst n =
     (case py_range 0 (int (length lst)) n of
        Inl e \<Rightarrow> Inl e
      | Inr idx \<Rightarrow> Inr (map (\<lambda>i. slice lst i (i + n)) idx))"

section \<open>The reconciliation engine: \<open>create_stocks\<close> and \<open>create_prices\<close>\<close>

text \<open>
  The entries built by the two modules. Seller entries are dicts with the key
  \<open>offer_id\<close>; the market's dict keys \<open>count\<close>, \<open>type\<close>, \<open>id\<close>, \<open>price\<close> and \<open>value\<close>
  appear below as \<open>item_count\<close>, \<open>item_type\<close>, \<open>price_id\<close>, \<open>price_body\<close> and
  \<open>price_value\<close>.
\<close>

record seller_offer =
  offer_id :: string

record seller_stock = seller_offer +
  stock :: int

record seller_price = seller_offer +
  auto_action_enabled :: string
  currency_code :: string
  old_price :: string
  price :: string

record market_item =
  item_count :: int
  item_type :: string
  updatedAt :: string

record market_stock =
  sku :: string
  warehouseId :: string
  items :: "market_item list"

record market_price_body =
  price_value :: int
  currencyId :: string

record market_price =
  price_id :: string
  price_body :: market_price_body

text \<open>
  The quantity rule, written inline in both \<open>create_stocks\<close> (seller.py lines 253-259,
  market.py lines 174-180):
  \<^verbatim>\<open>
    count = str(watch.get(Kolichestvo))
    if count == ">10":   stock = 100
    elif count == "1":   stock = 0
    else:                stock = int(watch.get(Kolichestvo))
  \<close>
\<close>

definition stock_of :: "cell \<Rightarrow> error + int" where
  "stock_of quantity =
     (let count = py_str quantity
      in if count = ''>10'' then Inr 100
         else if count = ''1'' then Inr 0
         else py_int quantity)"

text \<open>\<open>xs.remove(x)\<close> deletes the first occurrence and raises \<open>ValueError\<close> when there is none.\<close>

definition list_remove :: "'a \<Rightarrow> 'a list \<Rightarrow> error + 'a list" where
  "list_remove x xs = (if x \<in> set xs then Inr (remove1 x xs) else Inl ValueError)"

text \<open>
  The two \<open>create_stocks\<close> run the same two loops and differ in the dict they append,
  which is the parameter \<open>entry\<close> (from the offer code and the count). The list
  \<open>offer_ids\<close> is the caller's object and \<open>remove\<close> changes it in place, so the list
  is threaded through the loop and returned beside the outcome: the second component
  is what the caller's list holds after the call, also when the call raises.
\<close>

fun stocks_loop ::
  "(string \<Rightarrow> int \<Rightarrow> 'e) \<Rightarrow> watch list \<Rightarrow> 'e list \<Rightarrow> string list
     \<Rightarrow> (error + 'e list) \<times> string list" where
  "stocks_loop entry [] stocks offer_ids = (Inr stocks, offer_ids)"
| "stocks_loop entry (watch # rest) stocks offer_ids =
     (if py_str (Kod watch) \<in> set offer_ids then
        (case stock_of (Kolichestvo watch) of
           Inl e \<Rightarrow> (Inl e, offer_ids)
         | Inr stock_value \<Rightarrow>
             (case list_remove (py_str (Kod watch)) offer_ids of
                Inl e \<Rightarrow> (Inl e, offer_ids)
              | Inr offer_ids' \<Rightarrow>
                  stocks_loop entry rest (stocks @ [entry (py_str (Kod watch)) stock_value]) offer_ids'))
      else stocks_loop entry rest stocks offer_ids)"

fun fill_loop :: "(string \<Rightarrow> int \<Rightarrow> 'e) \<Rightarrow> string list \<Rightarrow> 'e list \<Rightarrow> 'e list" where
  "fill_loop entry [] stocks = stocks"
| "fill_loop entry (oid # rest) stocks = fill_loop entry rest (stocks @ [entry oid 0])"

definition create_stocks ::
  "(string \<Rightarrow> int \<Rightarrow> 'e) \<Rightarrow> watch list \<Rightarrow> string list \<Rightarrow> (error + 'e list) \<times> string list" where
  "create_stocks entry watch_remnants offer_ids =
     (case stocks_loop entry watch_remnants [] offer_ids of
        (Inl e, offer_ids') \<Rightarrow> (Inl e, offer_ids')
      | (Inr stocks, offer_ids') \<Rightarrow> (Inr (fill_loop entry offer_ids' stocks), offer_ids'))"

definition seller_stock_entry :: "string \<Rightarrow> int \<Rightarrow> seller_stock" where
  "seller_stock_entry code n = \<lparr>offer_id = code, stock = n\<rparr>"

definition seller_create_stocks ::
  "watch list \<Rightarrow> string list \<Rightarrow> (error + seller_stock list) \<times> string list" where
  "seller_create_stocks watch_remnants offer_ids =
     create_stocks seller_stock_entry watch_remnants offer_ids"

text \<open>
  In market.py the timestamp \<open>date\<close> is read from the clock once, before the loops; it
  is a parameter here.
\<close>

definition market_stock_entry :: "string \<Rightarrow> string \<Rightarrow> string \<Rightarrow> int \<Rightarrow> market_stock" where
  "market_stock_entry warehouse_id date code n =
     \<lparr>sku = code, warehouseId = warehouse_id,
      items = [\<lparr>item_count = n, item_type = ''FIT'', updatedAt = date\<rparr>]\<rparr>"

definition market_create_stocks ::
  "string \<Rightarrow> watch list \<Rightarrow> string list \<Rightarrow> string
     \<Rightarrow> (error + market_stock list) \<times> string list" where
  "market_create_stocks date watch_remnants offer_ids warehouse_id =
     create_stocks (market_stock_entry warehouse_id date) watch_remnants offer_ids"

text \<open>
  \<open>create_prices\<close>: one loop over the feed; the dict appended for a matched row is the
  parameter \<open>entry\<close>, which raises when the price cell cannot be converted.
\<close>

fun prices_loop ::
  "(string \<Rightarrow> cell \<Rightarrow> error + 'p) \<Rightarrow> watch list \<Rightarrow> string list \<Rightarrow> 'p list \<Rightarrow> error + 'p list" where
  "prices_loop entry [] offer_ids prices = Inr prices"
| "prices_loop entry (watch # rest) offer_ids prices =
     (if py_str (Kod watch) \<in> set offer_ids then
        (case entry (py_str (Kod watch)) (Tsena watch) of
           Inl e \<Rightarrow> Inl e
         | Inr p \<Rightarrow> prices_loop entry rest offer_ids (prices @ [p]))
      else prices_loop entry rest offer_ids prices)"

definition seller_price_entry :: "string \<Rightarrow> cell \<Rightarrow> error + seller_price" where
  "seller_price_entry code price_cell =
     (case price_conversion price_cell of
        Inl e \<Rightarrow> Inl e
      | Inr p \<Rightarrow>
          Inr \<lparr>offer_id = code, auto_action_enabled = ''UNKNOWN'', currency_code = ''RUB'',
               old_price = ''0'', price = p\<rparr>)"

definition seller_create_prices :: "watch list \<Rightarrow> string list \<Rightarrow> error + seller_price list" where
  "seller_create_prices watch_remnants offer_ids =
     prices_loop seller_price_entry watch_remnants offer_ids []"

text \<open>market.py: \<open>"value": int(price_conversion(watch.get(Tsena)))\<close>.\<close>

definition market_price_entry :: "string \<Rightarrow> cell \<Rightarrow> error + market_price" where
  "market_price_entry code price_cell =
     (case price_conversion price_cell of
        Inl e \<Rightarrow> Inl e
      | Inr p \<Rightarrow>
          (case py_int (PStr p) of
             Inl e \<Rightarrow> Inl e
           | Inr v \<Rightarrow>
               Inr \<lparr>price_id = code, price_body = \<lparr>price_value = v, currencyId = ''RUR''\<rparr>\<rparr>))"

definition market_create_prices :: "watch list \<Rightarrow> string list \<Rightarrow> error + market_price list" where
  "market_create_prices watch_remnants offer_ids =
     prices_loop market_price_entry watch_remnants offer_ids []"

section \<open>The upload functions and seller.py's \<open>main\<close>\<close>

text \<open>
  \<open>update_stocks\<close> and \<open>update_price\<close> post one batch to the marketplace and raise when
  the request fails. The marketplace is the parameter \<open>net\<close>: from the calls made so
  far and the call being made, the exception it raises, if any. The state is the log
  of the calls made. The offer list returned by \<open>get_offer_ids\<close> and the feed returned
  by \<open>download_stock\<close> are inputs.
\<close>

datatype ('s, 'p) call = UpdateStocks "'s list" | UpdatePrice "'p list"

type_synonym ('s, 'p) net = "('s, 'p) call list \<Rightarrow> ('s, 'p) call \<Rightarrow> error option"

text \<open>\<open>for some in list(divide(entries, n)): update(some, ...)\<close>, once the chunks are built.\<close>

fun submit ::
  "('s, 'p) net \<Rightarrow> ('e list \<Rightarrow> ('s, 'p) call) \<Rightarrow> 'e list list \<Rightarrow> ('s, 'p) call list
     \<Rightarrow> error option \<times> ('s, 'p) call list" where
  "submit net update [] log = (None, log)"
| "submit net update (some # rest) log =
     (case net log (update some) of
        Some e \<Rightarrow> (Some e, log @ [update some])
      | None \<Rightarrow> submit net update rest (log @ [update some]))"

definition upload ::
  "('s, 'p) net \<Rightarrow> ('e list \<Rightarrow> ('s, 'p) call) \<Rightarrow> 'e list \<Rightarrow> int \<Rightarrow> ('s, 'p) call list
     \<Rightarrow> error option \<times> ('s, 'p) call list" where
  "upload net update entries n log =
     (case divide entries n of
        Inl e \<Rightarrow> (Some e, log)
      | Inr chunks \<Rightarrow> submit net update chunks log)"



text \<open>
  seller.py \<open>main\<close>: every exception raised inside the \<open>try\<close> is caught and printed, so
  the result is the exception caught (if any) and the calls made. The same list object
  \<open>offer_ids\<close> is passed to \<open>create_stocks\<close> and then to \<open>create_prices\<close>.
\<close>

definition seller_main ::
  "(seller_stock, seller_price) net \<Rightarrow> watch list \<Rightarrow> string list
     \<Rightarrow> error option \<times> (seller_stock, seller_price) call list" where
  "seller_main net watch_remnants offer_ids =
     (case seller_create_stocks watch_remnants offer_ids of
        (Inl e, _) \<Rightarrow> (Some e, [])
      | (Inr stocks, offer_ids') \<Rightarrow>
          (case upload net UpdateStocks stocks 100 [] of
             (Some e, log) \<Rightarrow> (Some e, log)
           | (None, log) \<Rightarrow>
               (case seller_create_prices watch_remnants offer_ids' of
                  Inl e \<Rightarrow> (Some e, log)
                | Inr prices \<Rightarrow> upload net UpdatePrice prices 900 log)))"




section \<open>Reference definitions in the words of the specification\<close>

text \<open>
  The price normalizer of the specification: the substring before the first \<open>.\<close>, with
  every character that is not one of the ASCII digits deleted.
\<close>

definition spec_price_normalize :: "string \<Rightarrow> string" where
  "spec_price_normalize priceText =
     filter (\<lambda>c. c \<in> set ''0123456789'') (takeWhile (\<lambda>c. c \<noteq> CHR ''.'') priceText)"

text \<open>
  The integer value of a base-10 literal: the last digit counts units, and each step to
  the left multiplies by ten.
\<close>

fun units_first :: "string \<Rightarrow> nat" where
  "units_first [] = 0"
| "units_first (c # cs) = digit_val c + 10 * units_first cs"

definition spec_decimal :: "string \<Rightarrow> nat" where
  "spec_decimal ds = units_first (rev ds)"

definition spec_digits :: "string \<Rightarrow> bool" where
  "spec_digits ds = (ds \<noteq> [] \<and> list_all (\<lambda>c. c \<in> set ''0123456789'') ds)"

text \<open>
  A batch list of the specification: ordered chunks whose concatenation is the input,
  none empty, each of the chunk size except that the last may be shorter.
\<close>

definition batches :: "nat \<Rightarrow> 'a list \<Rightarrow> 'a list list \<Rightarrow> bool" where
  "batches limit entries chunks =
     (concat chunks = entries \<and> list_all (\<lambda>c. c \<noteq> [] \<and> length c \<le> limit) chunks
      \<and> list_all (\<lambda>c. length c = limit) (butlast chunks))"

text \<open>The first occurrence of each element, in order.\<close>

fun first_occurrences :: "'a list \<Rightarrow> 'a list" where
  "first_occurrences [] = []"
| "first_occurrences (x # xs) = x # filter (\<lambda>y. y \<noteq> x) (first_occurrences xs)"

text \<open>The offer codes of the feed rows, each coerced to a string, in feed order.\<close>

definition feed_codes :: "watch list \<Rightarrow> string list" where
  "feed_codes feed = map (\<lambda>w. py_str (Kod w)) feed"

text \<open>
  The stock entries of the specification for a feed and a channel's offer list, read
  through the entry's code and count: first the codes of the feed that are listed, in
  feed order, then the listed codes absent from the feed, in listing order; the count
  is zero for a code absent from the feed and otherwise the normalized quantity of the
  first feed row with that code.
\<close>

definition reconciled ::
  "('e \<Rightarrow> string) \<Rightarrow> ('e \<Rightarrow> int) \<Rightarrow> watch list \<Rightarrow> string list \<Rightarrow> 'e list \<Rightarrow> bool" where
  "reconciled code_of count_of feed offer_ids stocks =
     (map code_of stocks =
        first_occurrences (filter (\<lambda>c. c \<in> set offer_ids) (feed_codes feed))
        @ filter (\<lambda>c. c \<notin> set (feed_codes feed)) offer_ids
      \<and> list_all
           (\<lambda>x. case find (\<lambda>w. py_str (Kod w) = code_of x) feed of
                  None \<Rightarrow> count_of x = 0
                | Some w \<Rightarrow> stock_of (Kolichestvo w) = Inr (count_of x))
           stocks)"

definition market_count :: "market_stock \<Rightarrow> int" where
  "market_count s = item_count (hd (items s))"

text \<open>
  The calls an upload makes for a list of entries at a batch limit: the batch list of the
  entries, one call per batch and in order, cut short at the first call the marketplace
  refuses, and complete when the marketplace refuses none.
\<close>

definition sent_in_batches ::
  "('s, 'p) net \<Rightarrow> ('e list \<Rightarrow> ('s, 'p) call) \<Rightarrow> nat \<Rightarrow> 'e list \<Rightarrow> ('s, 'p) call list \<Rightarrow> bool" where
  "sent_in_batches net update limit entries calls =
     (\<exists>chunks k. batches limit entries chunks \<and> k \<le> length chunks
        \<and> calls = map update (take k chunks)
        \<and> ((\<forall>l c. net l c = None) \<longrightarrow> k = length chunks))"

section \<open>Properties\<close>

subsection \<open>Price normalization\<close>

lemma first_str_split: "first (str_split sep s) = Inr (takeWhile (\<lambda>c. c \<noteq> sep) s)"
  by (induction s) (auto simp: first_def split: list.splits)

lemma in_0_9_iff: "in_0_9 c \<longleftrightarrow> c \<in> set ''0123456789''"
proof
  assume "in_0_9 c"
  then have "(of_char c :: nat) = 48 \<or> (of_char c :: nat) = 49 \<or> (of_char c :: nat) = 50
     \<or> (of_char c :: nat) = 51 \<or> (of_char c :: nat) = 52 \<or> (of_char c :: nat) = 53
     \<or> (of_char c :: nat) = 54 \<or> (of_char c :: nat) = 55 \<or> (of_char c :: nat) = 56
     \<or> (of_char c :: nat) = 57"
    unfolding in_0_9_def by arith
  then have "(of_char c :: nat) = of_char CHR ''0'' \<or> (of_char c :: nat) = of_char CHR ''1''
     \<or> (of_char c :: nat) = of_char CHR ''2'' \<or> (of_char c :: nat) = of_char CHR ''3''
     \<or> (of_char c :: nat) = of_char CHR ''4'' \<or> (of_char c :: nat) = of_char CHR ''5''
     \<or> (of_char c :: nat) = of_char CHR ''6'' \<or> (of_char c :: nat) = of_char CHR ''7''
     \<or> (of_char c :: nat) = of_char CHR ''8'' \<or> (of_char c :: nat) = of_char CHR ''9''"
    by simp
  then show "c \<in> set ''0123456789''"
    unfolding of_char_eq_iff by simp
next
  assume "c \<in> set ''0123456789''"
  then show "in_0_9 c" by (auto simp: in_0_9_def)
qed

lemma in_0_9_set: "in_0_9 = (\<lambda>c. c \<in> set ''0123456789'')"
  by (rule ext) (rule in_0_9_iff)

lemma re_sub_filter: "re_sub_non_0_9 s = filter in_0_9 s"
  by (induction s) auto

lemma price_conversion_spec: "price_conversion (PStr s) = Inr (spec_price_normalize s)"
  by (simp only: price_conversion.simps first_str_split re_sub_filter spec_price_normalize_def
        in_0_9_set sum.case)

text \<open>
  C6. For every input string, \<open>price_conversion\<close> returns the reference result: the part
  before the first \<open>.\<close> with everything but the ASCII digits deleted. The three examples
  are the price 5'990.00 followed by a space and the rouble abbreviation (the Cyrillic
  letters er, u, be and a full stop), the text 12.5, and the rouble abbreviation
  alone; the Cyrillic letters are written as their UTF-8 bytes.
\<close>

theorem price_conversion_is_spec_normalize:
  "price_conversion (PStr s) = Inr (spec_price_normalize s)
   \<and> price_conversion
         (PStr (''5'990.00 '' @ [CHR 0xD1, CHR 0x80, CHR 0xD1, CHR 0x83, CHR 0xD0, CHR 0xB1] @ ''.''))
       = Inr ''5990''
   \<and> price_conversion (PStr ''12.5'') = Inr ''12''
   \<and> price_conversion (PStr ([CHR 0xD1, CHR 0x80, CHR 0xD1, CHR 0x83, CHR 0xD0, CHR 0xB1] @ ''.''))
       = Inr []"
proof (intro conjI)
  show "price_conversion (PStr s) = Inr (spec_price_normalize s)"
    by (rule price_conversion_spec)
qed (simp_all add: first_def in_0_9_def)

subsection \<open>Partitioning\<close>

lemma range_up_Cons: "0 < step \<Longrightarrow> i < stop \<Longrightarrow> range_up i stop step = i # range_up (i + step) stop step"
  by (subst range_up.simps) simp

lemma range_up_Nil: "\<not> (0 < step \<and> i < stop) \<Longrightarrow> range_up i stop step = []"
  by (subst range_up.simps) simp

lemma range_down_Nil: "\<not> (step < 0 \<and> stop < i) \<Longrightarrow> range_down i stop step = []"
  by (subst range_down.simps) simp

lemma slice_chunk:
  assumes "0 \<le> i" "i \<le> int (length lst)" "0 \<le> n"
  shows "slice lst i (i + n) = take (nat n) (drop (nat i) lst)"
proof -
  have a: "slice_index (int (length lst)) i = i"
    using assms by (simp add: slice_index_def)
  have b: "slice_index (int (length lst)) (i + n) = min (i + n) (int (length lst))"
    using assms by (simp add: slice_index_def)
  have "take (nat (min (i + n) (int (length lst)) - i)) (drop (nat i) lst) = take (nat n) (drop (nat i) lst)"
  proof (cases "i + n \<le> int (length lst)")
    case True
    then show ?thesis by (simp add: min_def)
  next
    case False
    then have "length (drop (nat i) lst) \<le> nat n" "length (drop (nat i) lst) \<le> nat (int (length lst) - i)"
      using assms by auto
    then show ?thesis using False by (simp add: min_def)
  qed
  then show ?thesis by (simp add: slice_def Let_def a b)
qed

lemma range_up_bounds: "k \<in> set (range_up i stop n) \<Longrightarrow> 0 \<le> i \<Longrightarrow> 0 \<le> k \<and> k < stop"
proof (induction i stop n rule: range_up.induct)
  case (1 i stop step)
  show ?case
  proof (cases "0 < step \<and> i < stop")
    case True
    with 1 show ?thesis by (auto simp: range_up_Cons)
  next
    case False
    with 1(2) show ?thesis by (simp add: range_up_Nil)
  qed
qed

lemma range_up_butlast:
  "k \<in> set (butlast (range_up i stop n)) \<Longrightarrow> k + n < stop"
proof (induction i stop n rule: range_up.induct)
  case (1 i stop step)
  show ?case
  proof (cases "0 < step \<and> i < stop")
    case True
    then have eq: "range_up i stop step = i # range_up (i + step) stop step"
      by (simp add: range_up_Cons)
    show ?thesis
    proof (cases "range_up (i + step) stop step = []")
      case True
      with eq 1(2) show ?thesis by simp
    next
      case False
      then have "i + step < stop" using range_up_Nil by blast
      with False eq 1 True show ?thesis by auto
    qed
  next
    case False
    with 1(2) show ?thesis by (simp add: range_up_Nil)
  qed
qed

lemma concat_chunks:
  "0 \<le> i \<Longrightarrow> 0 < n \<Longrightarrow>
   concat (map (\<lambda>k. slice lst k (k + n)) (range_up i (int (length lst)) n)) = drop (nat i) lst"
proof (induction i "int (length lst)" n rule: range_up.induct)
  case (1 i step)
  show ?case
  proof (cases "i < int (length lst)")
    case True
    have d: "drop (nat (i + step)) lst = drop (nat step) (drop (nat i) lst)"
      using 1(2,3) by (simp add: nat_add_distrib add.commute)
    have ih: "concat (map (\<lambda>k. slice lst k (k + step)) (range_up (i + step) (int (length lst)) step))
            = drop (nat (i + step)) lst"
      using 1 True by simp
    have sl: "slice lst i (i + step) = take (nat step) (drop (nat i) lst)"
      using 1(2,3) True by (intro slice_chunk) simp_all
    have "concat (map (\<lambda>k. slice lst k (k + step)) (range_up i (int (length lst)) step))
            = slice lst i (i + step)
              @ concat (map (\<lambda>k. slice lst k (k + step)) (range_up (i + step) (int (length lst)) step))"
      using 1(3) True by (simp add: range_up_Cons)
    also have "\<dots> = take (nat step) (drop (nat i) lst) @ drop (nat step) (drop (nat i) lst)"
      by (simp only: ih sl d)
    also have "\<dots> = drop (nat i) lst"
      by (rule append_take_drop_id)
    finally show ?thesis .
  next
    case False
    then show ?thesis using 1 by (simp add: range_up_Nil)
  qed
qed

lemma divide_pos: "0 < n \<Longrightarrow> divide lst n = Inr (map (\<lambda>k. slice lst k (k + n)) (range_up 0 (int (length lst)) n))"
  by (simp add: divide_def py_range_def)

lemma chunk_length:
  assumes "0 < n" "c \<in> set (map (\<lambda>k. slice lst k (k + n)) (range_up 0 (int (length lst)) n))"
  shows "c \<noteq> [] \<and> int (length c) \<le> n"
proof -
  from assms(2) obtain k where k: "k \<in> set (range_up 0 (int (length lst)) n)" "c = slice lst k (k + n)"
    by auto
  from range_up_bounds[OF k(1)] have b: "0 \<le> k" "k < int (length lst)" by auto
  with assms(1) k(2) show ?thesis by (auto simp: slice_chunk)
qed

lemma chunk_butlast_length:
  assumes "0 < n" "c \<in> set (butlast (map (\<lambda>k. slice lst k (k + n)) (range_up 0 (int (length lst)) n)))"
  shows "int (length c) = n"
proof -
  from assms(2) obtain k where k: "k \<in> set (butlast (range_up 0 (int (length lst)) n))" "c = slice lst k (k + n)"
    by (auto simp: map_butlast[symmetric])
  from range_up_butlast[OF k(1)] have b: "k + n < int (length lst)" .
  from in_set_butlastD[OF k(1)] have "0 \<le> k" using range_up_bounds by blast
  with assms(1) k(2) b show ?thesis by (auto simp: slice_chunk)
qed

lemma divide_batches:
  assumes "0 < n"
  shows "batches (nat n) lst (map (\<lambda>k. slice lst k (k + n)) (range_up 0 (int (length lst)) n))"
proof -
  let ?cs = "map (\<lambda>k. slice lst k (k + n)) (range_up 0 (int (length lst)) n)"
  have "concat ?cs = lst"
    using concat_chunks[of 0 n lst] assms by simp
  moreover have "list_all (\<lambda>c. c \<noteq> [] \<and> length c \<le> nat n) ?cs"
    unfolding list_all_iff using chunk_length[OF assms] by fastforce
  moreover have "list_all (\<lambda>c. length c = nat n) (butlast ?cs)"
    unfolding list_all_iff using chunk_butlast_length[OF assms] by fastforce
  ultimately show ?thesis by (simp add: batches_def)
qed

text \<open>
  C8. For a positive chunk size \<open>n\<close>, \<open>divide\<close> returns chunks whose concatenation is the
  input, none empty and none longer than \<open>n\<close>, all but the last of length exactly \<open>n\<close>;
  \<open>divide([1,2,3,4,5], 2)\<close> is \<open>[[1,2],[3,4],[5]]\<close> and \<open>divide([], 2)\<close> is empty.
\<close>

theorem divide_positive_chunks:
  assumes "0 < n"
  shows "(\<exists>chunks. divide lst n = Inr chunks \<and> batches (nat n) lst chunks)
    \<and> divide [1, 2, 3, 4, 5 :: int] 2 = Inr [[1, 2], [3, 4], [5]]
    \<and> divide ([] :: int list) 2 = Inr []"
proof (intro conjI)
  show "\<exists>chunks. divide lst n = Inr chunks \<and> batches (nat n) lst chunks"
    using divide_pos[OF assms] divide_batches[OF assms] by blast
  show "divide [1, 2, 3, 4, 5 :: int] 2 = Inr [[1, 2], [3, 4], [5]]"
    by (simp add: divide_def py_range_def range_up_Cons range_up_Nil slice_def slice_index_def)
  show "divide ([] :: int list) 2 = Inr []"
    by (simp add: divide_def py_range_def range_up_Nil)
qed

theorem divide_positive_chunks_witness:
  "(0 :: int) < 3
   \<and> (\<exists>chunks. divide ''abcdefg'' 3 = Inr chunks \<and> batches (nat 3) ''abcdefg'' chunks)"
  using divide_positive_chunks[of 3 "''abcdefg''"] by simp

text \<open>
  C9, as the code has it. A chunk size of zero makes \<open>range\<close> raise \<open>ValueError\<close>; a
  negative chunk size makes the range empty, so \<open>divide\<close> yields no chunk at all, whatever
  the list.
\<close>

theorem divide_nonpositive:
  "n \<le> 0 \<Longrightarrow> divide lst n = (if n = 0 then Inl ValueError else Inr [])"
  by (simp add: divide_def py_range_def range_down_Nil)

theorem divide_nonpositive_witness:
  "(- 3 :: int) \<le> 0 \<and> divide ''ab'' (- 3) = Inr []"
  using divide_nonpositive[of "- 3" "''ab''"] by simp

theorem divide_negative_counterexample:
  "divide [1, 2, 3 :: int] (- 1) = Inr []"
  by (simp add: divide_def py_range_def range_down_Nil)

subsection \<open>Stock reconciliation\<close>

lemma feed_codes_simps [simp]:
  "feed_codes [] = []" "feed_codes (w # ws) = py_str (Kod w) # feed_codes ws"
  by (simp_all add: feed_codes_def)

lemma fill_loop_append: "fill_loop entry ids st = st @ map (\<lambda>c. entry c 0) ids"
  by (induction ids arbitrary: st) auto

lemma filter_first_occurrences:
  "filter P (first_occurrences xs) = first_occurrences (filter P xs)"
proof (induction xs)
  case Nil
  show ?case by simp
next
  case (Cons x xs)
  show ?case
  proof (cases "P x")
    case True
    have "filter P (filter (\<lambda>y. y \<noteq> x) (first_occurrences xs))
          = filter (\<lambda>y. y \<noteq> x) (filter P (first_occurrences xs))"
      by (simp add: conj_commute)
    with True Cons show ?thesis by simp
  next
    case False
    then have "filter P (filter (\<lambda>y. y \<noteq> x) (first_occurrences xs)) = filter P (first_occurrences xs)"
      by (auto intro: filter_cong)
    with False Cons show ?thesis by simp
  qed
qed

lemma set_first_occurrences [simp]: "set (first_occurrences xs) = set xs"
  by (induction xs) auto

lemma distinct_first_occurrences [simp]: "distinct (first_occurrences xs)"
  by (induction xs) auto

lemma remove1_as_filter: "distinct xs \<Longrightarrow> remove1 x xs = filter (\<lambda>y. y \<noteq> x) xs"
  by (induction xs) (auto intro: filter_True[symmetric])

lemma stocks_loop_ids:
  "stocks_loop entry feed st ids = (Inr st', ids') \<Longrightarrow> distinct ids \<Longrightarrow>
   ids' = filter (\<lambda>c. c \<notin> set (feed_codes feed)) ids"
proof (induction feed arbitrary: st ids)
  case Nil
  then show ?case by simp
next
  case (Cons w ws)
  let ?c = "py_str (Kod w)"
  show ?case
  proof (cases "?c \<in> set ids")
    case True
    with Cons.prems(1) obtain n where
      n: "stock_of (Kolichestvo w) = Inr n"
      and rec: "stocks_loop entry ws (st @ [entry ?c n]) (remove1 ?c ids) = (Inr st', ids')"
      by (auto simp: list_remove_def split: sum.splits)
    from Cons.IH[OF rec] Cons.prems(2)
    have "ids' = filter (\<lambda>c. c \<notin> set (feed_codes ws)) (remove1 ?c ids)" by simp
    also have "\<dots> = filter (\<lambda>c. c \<notin> set (feed_codes ws)) (filter (\<lambda>y. y \<noteq> ?c) ids)"
      using Cons.prems(2) by (simp add: remove1_as_filter)
    also have "\<dots> = filter (\<lambda>c. c \<notin> set (feed_codes (w # ws))) ids"
      by (auto intro: filter_cong)
    finally show ?thesis .
  next
    case False
    with Cons.prems(1) have rec: "stocks_loop entry ws st ids = (Inr st', ids')" by simp
    from Cons.IH[OF rec Cons.prems(2)]
    have "ids' = filter (\<lambda>c. c \<notin> set (feed_codes ws)) ids" .
    also have "\<dots> = filter (\<lambda>c. c \<notin> set (feed_codes (w # ws))) ids"
      using False by (auto intro: filter_cong)
    finally show ?thesis .
  qed
qed

lemma stocks_loop_error:
  "stocks_loop entry feed st ids = (Inl e, ids') \<Longrightarrow>
   \<exists>w\<in>set feed. py_str (Kod w) \<in> set ids \<and> stock_of (Kolichestvo w) = Inl e"
proof (induction feed arbitrary: st ids)
  case Nil
  then show ?case by simp
next
  case (Cons w ws)
  let ?c = "py_str (Kod w)"
  show ?case
  proof (cases "?c \<in> set ids")
    case True
    show ?thesis
    proof (cases "stock_of (Kolichestvo w)")
      case (Inl e')
      with True Cons.prems show ?thesis by auto
    next
      case (Inr n)
      with True Cons.prems
      have "stocks_loop entry ws (st @ [entry ?c n]) (remove1 ?c ids) = (Inl e, ids')"
        by (simp add: list_remove_def)
      from Cons.IH[OF this] obtain w' where
        "w' \<in> set ws" "py_str (Kod w') \<in> set (remove1 ?c ids)" "stock_of (Kolichestvo w') = Inl e"
        by blast
      then show ?thesis using set_remove1_subset by fastforce
    qed
  next
    case False
    with Cons.prems have "stocks_loop entry ws st ids = (Inl e, ids')" by simp
    from Cons.IH[OF this] show ?thesis by auto
  qed
qed

lemma stocks_loop_entries:
  assumes key: "\<And>c n. key (entry c n) = c" and cnt: "\<And>c n. cnt (entry c n) = n"
  shows "stocks_loop entry feed st ids = (Inr st', ids') \<Longrightarrow> distinct ids \<Longrightarrow>
   \<exists>m. st' = st @ m
     \<and> map key m = first_occurrences (filter (\<lambda>c. c \<in> set ids) (feed_codes feed))
     \<and> list_all (\<lambda>x. \<exists>w. find (\<lambda>w. py_str (Kod w) = key x) feed = Some w
                          \<and> stock_of (Kolichestvo w) = Inr (cnt x) \<and> x = entry (key x) (cnt x)) m"
proof (induction feed arbitrary: st ids)
  case Nil
  then show ?case by simp
next
  case (Cons w ws)
  let ?c = "py_str (Kod w)"
  show ?case
  proof (cases "?c \<in> set ids")
    case True
    with Cons.prems(1) obtain n where
      n: "stock_of (Kolichestvo w) = Inr n"
      and rec: "stocks_loop entry ws (st @ [entry ?c n]) (remove1 ?c ids) = (Inr st', ids')"
      by (auto simp: list_remove_def split: sum.splits)
    have d: "distinct (remove1 ?c ids)" using Cons.prems(2) by simp
    from Cons.IH[OF rec d] obtain m where
      m: "st' = (st @ [entry ?c n]) @ m"
         "map key m = first_occurrences (filter (\<lambda>c. c \<in> set (remove1 ?c ids)) (feed_codes ws))"
         "list_all (\<lambda>x. \<exists>w. find (\<lambda>w. py_str (Kod w) = key x) ws = Some w
                          \<and> stock_of (Kolichestvo w) = Inr (cnt x) \<and> x = entry (key x) (cnt x)) m"
      by blast
    have s: "set (remove1 ?c ids) = set ids - {?c}" using Cons.prems(2) by simp
    have "filter (\<lambda>c. c \<in> set (remove1 ?c ids)) (feed_codes ws)
          = filter (\<lambda>y. y \<noteq> ?c) (filter (\<lambda>c. c \<in> set ids) (feed_codes ws))"
      unfolding s by (auto intro: filter_cong)
    then have k: "map key m = filter (\<lambda>y. y \<noteq> ?c) (first_occurrences (filter (\<lambda>c. c \<in> set ids) (feed_codes ws)))"
      using m(2) by (simp add: filter_first_occurrences)
    have ne: "\<forall>x\<in>set m. key x \<noteq> ?c"
    proof
      fix x assume "x \<in> set m"
      then have "key x \<in> set (map key m)" by simp
      then show "key x \<noteq> ?c" unfolding k by simp
    qed
    have "list_all (\<lambda>x. \<exists>w'. find (\<lambda>w. py_str (Kod w) = key x) (w # ws) = Some w'
                          \<and> stock_of (Kolichestvo w') = Inr (cnt x) \<and> x = entry (key x) (cnt x)) m"
      using m(3) ne unfolding list_all_iff by auto
    then have "list_all (\<lambda>x. \<exists>w'. find (\<lambda>w. py_str (Kod w) = key x) (w # ws) = Some w'
                          \<and> stock_of (Kolichestvo w') = Inr (cnt x) \<and> x = entry (key x) (cnt x)) (entry ?c n # m)"
      using n by (simp add: key cnt)
    moreover have "map key (entry ?c n # m) = first_occurrences (filter (\<lambda>c. c \<in> set ids) (feed_codes (w # ws)))"
      using True k by (simp add: key)
    moreover have "st' = st @ (entry ?c n # m)" using m(1) by simp
    ultimately show ?thesis by blast
  next
    case False
    with Cons.prems(1) have rec: "stocks_loop entry ws st ids = (Inr st', ids')" by simp
    from Cons.IH[OF rec Cons.prems(2)] obtain m where
      m: "st' = st @ m"
         "map key m = first_occurrences (filter (\<lambda>c. c \<in> set ids) (feed_codes ws))"
         "list_all (\<lambda>x. \<exists>w. find (\<lambda>w. py_str (Kod w) = key x) ws = Some w
                          \<and> stock_of (Kolichestvo w) = Inr (cnt x) \<and> x = entry (key x) (cnt x)) m"
      by blast
    have ne: "\<forall>x\<in>set m. key x \<noteq> ?c"
    proof
      fix x assume "x \<in> set m"
      then have "key x \<in> set (map key m)" by simp
      then show "key x \<noteq> ?c" unfolding m(2) using False by auto
    qed
    have "list_all (\<lambda>x. \<exists>w'. find (\<lambda>w. py_str (Kod w) = key x) (w # ws) = Some w'
                          \<and> stock_of (Kolichestvo w') = Inr (cnt x) \<and> x = entry (key x) (cnt x)) m"
      using m(3) ne unfolding list_all_iff by auto
    moreover have "map key m = first_occurrences (filter (\<lambda>c. c \<in> set ids) (feed_codes (w # ws)))"
      using False m(2) by simp
    ultimately show ?thesis using m(1) by blast
  qed
qed

lemma create_stocks_ok:
  assumes key: "\<And>c n. key (entry c n) = c" and cnt: "\<And>c n. cnt (entry c n) = n"
    and d: "distinct ids"
    and run: "create_stocks entry feed ids = (Inr stocks, ids')"
  shows "reconciled key cnt feed ids stocks"
    and "distinct (map key stocks)"
    and "set (map key stocks) = set ids"
    and "list_all (\<lambda>x. x = entry (key x) (cnt x)) stocks"
    and "ids' = filter (\<lambda>c. c \<notin> set (feed_codes feed)) ids"
proof -
  from run obtain st where
    loop: "stocks_loop entry feed [] ids = (Inr st, ids')" and
    stocks: "stocks = fill_loop entry ids' st"
    by (auto simp: create_stocks_def split: prod.splits sum.splits)
  from stocks_loop_ids[OF loop d]
  show ids': "ids' = filter (\<lambda>c. c \<notin> set (feed_codes feed)) ids" .
  from stocks_loop_entries[of key entry cnt, OF key cnt loop d] obtain m where
    m: "st = m"
       "map key m = first_occurrences (filter (\<lambda>c. c \<in> set ids) (feed_codes feed))"
       "list_all (\<lambda>x. \<exists>w. find (\<lambda>w. py_str (Kod w) = key x) feed = Some w
                          \<and> stock_of (Kolichestvo w) = Inr (cnt x) \<and> x = entry (key x) (cnt x)) m"
    by auto
  let ?z = "map (\<lambda>c. entry c 0) ids'"
  have eq: "stocks = m @ ?z" using stocks m(1) by (simp add: fill_loop_append)
  have keys: "map key stocks =
        first_occurrences (filter (\<lambda>c. c \<in> set ids) (feed_codes feed))
        @ filter (\<lambda>c. c \<notin> set (feed_codes feed)) ids"
    unfolding eq using m(2) ids' by (simp add: key comp_def)
  have zfind: "find (\<lambda>w. py_str (Kod w) = c) feed = None" if "c \<in> set ids'" for c
    using that unfolding ids' by (auto simp: find_None_iff feed_codes_def)
  have "list_all (\<lambda>x. case find (\<lambda>w. py_str (Kod w) = key x) feed of
                  None \<Rightarrow> cnt x = 0
                | Some w \<Rightarrow> stock_of (Kolichestvo w) = Inr (cnt x)) m"
    using m(3) unfolding list_all_iff by auto
  moreover have "list_all (\<lambda>x. case find (\<lambda>w. py_str (Kod w) = key x) feed of
                  None \<Rightarrow> cnt x = 0
                | Some w \<Rightarrow> stock_of (Kolichestvo w) = Inr (cnt x)) ?z"
    unfolding list_all_iff using zfind by (auto simp: key cnt)
  ultimately show "reconciled key cnt feed ids stocks"
    unfolding reconciled_def eq using keys eq by simp
  show "distinct (map key stocks)"
    unfolding keys using d by auto
  show "set (map key stocks) = set ids"
    unfolding keys by (auto simp: feed_codes_def)
  have "list_all (\<lambda>x. x = entry (key x) (cnt x)) m"
    using m(3) unfolding list_all_iff by auto
  moreover have "list_all (\<lambda>x. x = entry (key x) (cnt x)) ?z"
    unfolding list_all_iff by (auto simp: key cnt)
  ultimately show "list_all (\<lambda>x. x = entry (key x) (cnt x)) stocks"
    unfolding eq by simp
qed

lemma create_stocks_error:
  assumes "create_stocks entry feed ids = (Inl e, ids')"
  shows "\<exists>w\<in>set feed. py_str (Kod w) \<in> set ids \<and> stock_of (Kolichestvo w) = Inl e"
proof -
  from assms have "stocks_loop entry feed [] ids = (Inl e, ids')"
    by (auto simp: create_stocks_def split: prod.splits sum.splits)
  then show ?thesis by (rule stocks_loop_error)
qed

lemma seller_key: "offer_id (seller_stock_entry c n) = c" "stock (seller_stock_entry c n) = n"
  by (simp_all add: seller_stock_entry_def)

lemma market_key: "sku (market_stock_entry wh d c n) = c" "market_count (market_stock_entry wh d c n) = n"
  by (simp_all add: market_stock_entry_def market_count_def)

lemmas run_defs =
  seller_create_stocks_def market_create_stocks_def create_stocks_def stock_of_def
  list_remove_def seller_stock_entry_def market_stock_entry_def int_str_def digit_char_def
  int_of_str_def strip_def is_space_def in_0_9_def digit_val_def first_def
  seller_create_prices_def market_create_prices_def seller_price_entry_def
  market_price_entry_def

text \<open>
  C1, as the code has it. For a duplicate-free offer list, either \<open>create_stocks\<close>
  returns and then its entries are exactly the reconciled ones (one per listed code and
  none for any other code: the listed codes of the feed first, in feed order, each with
  the normalized quantity of its first feed row, then the listed codes absent from the
  feed, in listing order, with count zero), or it raises, and then some feed row with a
  listed code has a quantity whose normalization raises that exception. This holds for
  the seller's and for the market's \<open>create_stocks\<close>.
\<close>

theorem create_stocks_reconciles:
  assumes "distinct offer_ids"
  shows "(case seller_create_stocks feed offer_ids of
            (Inr stocks, _) \<Rightarrow>
              reconciled offer_id stock feed offer_ids stocks
              \<and> distinct (map offer_id stocks) \<and> set (map offer_id stocks) = set offer_ids
          | (Inl e, _) \<Rightarrow>
              (\<exists>w\<in>set feed. py_str (Kod w) \<in> set offer_ids \<and> stock_of (Kolichestvo w) = Inl e))
       \<and> (case market_create_stocks date feed offer_ids warehouse_id of
            (Inr stocks, _) \<Rightarrow>
              reconciled sku market_count feed offer_ids stocks
              \<and> distinct (map sku stocks) \<and> set (map sku stocks) = set offer_ids
              \<and> list_all (\<lambda>x. x = market_stock_entry warehouse_id date (sku x) (market_count x)) stocks
          | (Inl e, _) \<Rightarrow>
              (\<exists>w\<in>set feed. py_str (Kod w) \<in> set offer_ids \<and> stock_of (Kolichestvo w) = Inl e))"
proof (intro conjI)
  show "case seller_create_stocks feed offer_ids of
            (Inr stocks, _) \<Rightarrow>
              reconciled offer_id stock feed offer_ids stocks
              \<and> distinct (map offer_id stocks) \<and> set (map offer_id stocks) = set offer_ids
          | (Inl e, _) \<Rightarrow>
              (\<exists>w\<in>set feed. py_str (Kod w) \<in> set offer_ids \<and> stock_of (Kolichestvo w) = Inl e)"
  proof (cases "seller_create_stocks feed offer_ids")
    case (Pair r ids')
    show ?thesis
    proof (cases r)
      case (Inl e)
      with Pair create_stocks_error[of seller_stock_entry feed offer_ids e ids']
      show ?thesis by (simp add: seller_create_stocks_def)
    next
      case (Inr stocks)
      with Pair have run: "create_stocks seller_stock_entry feed offer_ids = (Inr stocks, ids')"
        by (simp add: seller_create_stocks_def)
      from create_stocks_ok(1-3)[of offer_id seller_stock_entry stock, OF seller_key assms run]
      show ?thesis using Pair Inr by simp
    qed
  qed
  show "case market_create_stocks date feed offer_ids warehouse_id of
            (Inr stocks, _) \<Rightarrow>
              reconciled sku market_count feed offer_ids stocks
              \<and> distinct (map sku stocks) \<and> set (map sku stocks) = set offer_ids
              \<and> list_all (\<lambda>x. x = market_stock_entry warehouse_id date (sku x) (market_count x)) stocks
          | (Inl e, _) \<Rightarrow>
              (\<exists>w\<in>set feed. py_str (Kod w) \<in> set offer_ids \<and> stock_of (Kolichestvo w) = Inl e)"
  proof (cases "market_create_stocks date feed offer_ids warehouse_id")
    case (Pair r ids')
    show ?thesis
    proof (cases r)
      case (Inl e)
      with Pair create_stocks_error[of "market_stock_entry warehouse_id date" feed offer_ids e ids']
      show ?thesis by (simp add: market_create_stocks_def)
    next
      case (Inr stocks)
      with Pair have run: "create_stocks (market_stock_entry warehouse_id date) feed offer_ids = (Inr stocks, ids')"
        by (simp add: market_create_stocks_def)
      from create_stocks_ok(1-4)[of sku "market_stock_entry warehouse_id date" market_count, OF market_key assms run]
      show ?thesis using Pair Inr by simp
    qed
  qed
qed

theorem create_stocks_reconciles_witness:
  "distinct [''123'', ''456'', ''789'']
   \<and> seller_create_stocks
        [\<lparr>Kod = PStr ''123'', Kolichestvo = PStr ''>10'', Tsena = PStr ''1000.00 p.''\<rparr>,
         \<lparr>Kod = PStr ''456'', Kolichestvo = PStr ''1'', Tsena = PStr ''2000.00 p.''\<rparr>]
        [''123'', ''456'', ''789'']
       = (Inr [\<lparr>offer_id = ''123'', stock = 100\<rparr>, \<lparr>offer_id = ''456'', stock = 0\<rparr>,
               \<lparr>offer_id = ''789'', stock = 0\<rparr>], [''789''])
   \<and> reconciled offer_id stock
        [\<lparr>Kod = PStr ''123'', Kolichestvo = PStr ''>10'', Tsena = PStr ''1000.00 p.''\<rparr>,
         \<lparr>Kod = PStr ''456'', Kolichestvo = PStr ''1'', Tsena = PStr ''2000.00 p.''\<rparr>]
        [''123'', ''456'', ''789'']
        [\<lparr>offer_id = ''123'', stock = 100\<rparr>, \<lparr>offer_id = ''456'', stock = 0\<rparr>,
         \<lparr>offer_id = ''789'', stock = 0\<rparr>]"
  using create_stocks_reconciles[of "[''123'', ''456'', ''789'']"
      "[\<lparr>Kod = PStr ''123'', Kolichestvo = PStr ''>10'', Tsena = PStr ''1000.00 p.''\<rparr>,
        \<lparr>Kod = PStr ''456'', Kolichestvo = PStr ''1'', Tsena = PStr ''2000.00 p.''\<rparr>]"]
  by (simp add: run_defs)

theorem create_stocks_raises_counterexample:
  "seller_create_stocks
     [\<lparr>Kod = PStr ''123'', Kolichestvo = PStr ''abc'', Tsena = PStr ''1000.00 p.''\<rparr>]
     [''123'']
   = (Inl ValueError, [''123''])"
  by (simp add: run_defs)

text \<open>
  C2 fails on the code: \<open>create_stocks\<close> removes the matched codes from the caller's own
  list. After the call on the feed with the codes 123 and 456, the caller's list
  \<open>["123", "456", "789"]\<close> holds \<open>["789"]\<close> only.
\<close>

theorem create_stocks_changes_offer_ids:
  "snd (seller_create_stocks
          [\<lparr>Kod = PStr ''123'', Kolichestvo = PStr ''>10'', Tsena = PStr ''1000.00 p.''\<rparr>,
           \<lparr>Kod = PStr ''456'', Kolichestvo = PStr ''1'', Tsena = PStr ''2000.00 p.''\<rparr>]
          [''123'', ''456'', ''789''])
     = [''789'']
   \<and> snd (market_create_stocks ''2024-01-01T00:00:00Z''
          [\<lparr>Kod = PStr ''123'', Kolichestvo = PStr ''>10'', Tsena = PStr ''1000.00 p.''\<rparr>,
           \<lparr>Kod = PStr ''456'', Kolichestvo = PStr ''1'', Tsena = PStr ''2000.00 p.''\<rparr>]
          [''123'', ''456'', ''789''] ''w1'')
     = [''789'']"
  by (simp add: run_defs)

subsection \<open>Quantity normalization\<close>

lemma digit_not_space: "in_0_9 c \<Longrightarrow> \<not> is_space c"
  by (auto simp: in_0_9_def is_space_def Let_def)

lemma digit_not_sign: "in_0_9 c \<Longrightarrow> c \<noteq> CHR ''-'' \<and> c \<noteq> CHR ''+'' \<and> c \<noteq> CHR ''_'' \<and> c \<noteq> CHR ''>''"
  by (auto simp: in_0_9_def)

lemma spec_digits_iff: "spec_digits ds \<longleftrightarrow> ds \<noteq> [] \<and> (\<forall>c\<in>set ds. in_0_9 c)"
  by (simp add: spec_digits_def list_all_iff in_0_9_iff)

lemma dropWhile_id: "xs = [] \<or> \<not> P (hd xs) \<Longrightarrow> dropWhile P xs = xs"
  by (cases xs) auto

lemma strip_digits: "spec_digits ds \<Longrightarrow> strip ds = ds"
proof -
  assume d: "spec_digits ds"
  then have ne: "ds \<noteq> []" and all: "\<forall>c\<in>set ds. in_0_9 c" by (simp_all add: spec_digits_iff)
  have "\<not> is_space (hd ds)" using ne all digit_not_space by simp
  then have a: "dropWhile is_space ds = ds" by (simp add: dropWhile_id)
  have "\<not> is_space (hd (rev ds))" using ne all digit_not_space by (simp add: hd_rev)
  then have b: "dropWhile is_space (rev ds) = rev ds" by (simp add: dropWhile_id)
  show ?thesis by (simp add: strip_def a b)
qed


lemma units_first_append:
  "units_first (xs @ ys) = units_first xs + 10 ^ length xs * units_first ys"
  by (induction xs) (simp_all add: algebra_simps)

lemma spec_decimal_Cons: "spec_decimal (c # cs) = digit_val c * 10 ^ length cs + spec_decimal cs"
  by (simp add: spec_decimal_def units_first_append)

lemma digits_tail_value:
  "\<forall>c\<in>set ds. in_0_9 c \<Longrightarrow> digits_tail acc ds = Some (acc * 10 ^ length ds + spec_decimal ds)"
proof (induction ds arbitrary: acc)
  case Nil
  show ?case by (simp add: spec_decimal_def)
next
  case (Cons c cs)
  then have "digits_tail acc (c # cs) = Some ((acc * 10 + digit_val c) * 10 ^ length cs + spec_decimal cs)"
    by simp
  also have "(acc * 10 + digit_val c) * 10 ^ length cs + spec_decimal cs
             = acc * 10 ^ length (c # cs) + spec_decimal (c # cs)"
    by (simp add: spec_decimal_Cons algebra_simps)
  finally show ?case .
qed

lemma digits_value_spec: "spec_digits ds \<Longrightarrow> digits_value ds = Some (spec_decimal ds)"
proof -
  assume "spec_digits ds"
  then obtain c cs where ds: "ds = c # cs" and c: "in_0_9 c" and cs: "\<forall>x\<in>set cs. in_0_9 x"
    by (cases ds) (auto simp: spec_digits_iff)
  show ?thesis
    unfolding ds using c digits_tail_value[OF cs, of "digit_val c"]
    by (simp add: spec_decimal_Cons)
qed

lemma int_of_str_digits: "spec_digits ds \<Longrightarrow> int_of_str ds = Inr (int (spec_decimal ds))"
proof -
  assume d: "spec_digits ds"
  then obtain c cs where ds: "ds = c # cs" and c: "in_0_9 c"
    by (cases ds) (auto simp: spec_digits_iff)
  from digit_not_sign[OF c] have "c \<noteq> CHR ''-''" "c \<noteq> CHR ''+''" by simp_all
  then show ?thesis
    using digits_value_spec[OF d] strip_digits[OF d] unfolding ds
    by (simp add: int_of_str_def)
qed








lemma int_of_str_empty: "int_of_str [] = Inl ValueError"
  by (simp add: int_of_str_def strip_def)



subsection \<open>Price reconciliation\<close>

lemma prices_loop_ok:
  "prices_loop entry feed ids acc = Inr ps \<Longrightarrow>
   \<exists>m. ps = acc @ m
      \<and> map Inr m = map (\<lambda>w. entry (py_str (Kod w)) (Tsena w))
                       (filter (\<lambda>w. py_str (Kod w) \<in> set ids) feed)"
proof (induction feed arbitrary: acc)
  case Nil
  then show ?case by simp
next
  case (Cons w ws)
  show ?case
  proof (cases "py_str (Kod w) \<in> set ids")
    case True
    with Cons.prems obtain p where
      p: "entry (py_str (Kod w)) (Tsena w) = Inr p"
      and rec: "prices_loop entry ws ids (acc @ [p]) = Inr ps"
      by (auto split: sum.splits)
    from Cons.IH[OF rec] obtain m where
      "ps = (acc @ [p]) @ m"
      "map Inr m = map (\<lambda>w. entry (py_str (Kod w)) (Tsena w)) (filter (\<lambda>w. py_str (Kod w) \<in> set ids) ws)"
      by blast
    then have "ps = acc @ (p # m)
      \<and> map Inr (p # m) = map (\<lambda>w. entry (py_str (Kod w)) (Tsena w))
                       (filter (\<lambda>w. py_str (Kod w) \<in> set ids) (w # ws))"
      using True p by simp
    then show ?thesis by blast
  next
    case False
    with Cons show ?thesis by simp
  qed
qed

lemma prices_loop_error:
  "prices_loop entry feed ids acc = Inl e \<Longrightarrow>
   \<exists>w\<in>set feed. py_str (Kod w) \<in> set ids \<and> entry (py_str (Kod w)) (Tsena w) = Inl e"
proof (induction feed arbitrary: acc)
  case Nil
  then show ?case by simp
next
  case (Cons w ws)
  show ?case
  proof (cases "py_str (Kod w) \<in> set ids")
    case True
    show ?thesis
    proof (cases "entry (py_str (Kod w)) (Tsena w)")
      case (Inl e')
      with True Cons.prems show ?thesis by auto
    next
      case (Inr p)
      with True Cons.prems have "prices_loop entry ws ids (acc @ [p]) = Inl e" by simp
      from Cons.IH[OF this] show ?thesis by auto
    qed
  next
    case False
    with Cons.prems have "prices_loop entry ws ids acc = Inl e" by simp
    from Cons.IH[OF this] show ?thesis by auto
  qed
qed

lemma prices_loop_codes:
  assumes key: "\<And>c x p. entry c x = Inr p \<Longrightarrow> key p = c"
    and run: "prices_loop entry feed ids [] = Inr ps"
  shows "map key ps = filter (\<lambda>c. c \<in> set ids) (feed_codes feed)"
proof -
  from prices_loop_ok[OF run] have
    m: "map Inr ps = map (\<lambda>w. entry (py_str (Kod w)) (Tsena w))
                       (filter (\<lambda>w. py_str (Kod w) \<in> set ids) feed)" by simp
  let ?rows = "filter (\<lambda>w. py_str (Kod w) \<in> set ids) feed"
  have len: "length ps = length ?rows" using m by (metis length_map)
  have "map key ps = map (\<lambda>w. py_str (Kod w)) ?rows"
  proof (rule nth_equalityI)
    show "length (map key ps) = length (map (\<lambda>w. py_str (Kod w)) ?rows)" using len by simp
    fix i assume "i < length (map key ps)"
    then have i: "i < length ps" "i < length ?rows" using len by simp_all
    from m have "map Inr ps ! i = map (\<lambda>w. entry (py_str (Kod w)) (Tsena w)) ?rows ! i" by simp
    with i have "entry (py_str (Kod (?rows ! i))) (Tsena (?rows ! i)) = Inr (ps ! i)" by simp
    from key[OF this] show "map key ps ! i = map (\<lambda>w. py_str (Kod w)) ?rows ! i"
      using i by simp
  qed
  also have "\<dots> = filter (\<lambda>c. c \<in> set ids) (feed_codes feed)"
    by (simp add: feed_codes_def filter_map comp_def)
  finally show ?thesis .
qed

lemma prices_loop_none:
  "\<forall>w\<in>set feed. py_str (Kod w) \<notin> set ids \<Longrightarrow> prices_loop entry feed ids acc = Inr acc"
  by (induction feed arbitrary: acc) auto

lemma seller_price_key: "seller_price_entry c x = Inr p \<Longrightarrow> offer_id p = c"
  by (auto simp: seller_price_entry_def split: sum.splits)

lemma market_price_key: "market_price_entry c x = Inr p \<Longrightarrow> price_id p = c"
  by (auto simp: market_price_entry_def split: sum.splits)

lemma seller_price_entry_error:
  "seller_price_entry c x = Inl e \<longleftrightarrow> price_conversion x = Inl e"
  by (auto simp: seller_price_entry_def split: sum.splits)

lemma spec_price_normalize_digits:
  "spec_price_normalize s \<noteq> [] \<Longrightarrow> spec_digits (spec_price_normalize s)"
  by (simp add: spec_digits_def spec_price_normalize_def list_all_iff)

lemma market_price_entry_str:
  "market_price_entry c (PStr s) =
     (if spec_price_normalize s = [] then Inl ValueError
      else Inr \<lparr>price_id = c,
                price_body = \<lparr>price_value = int (spec_decimal (spec_price_normalize s)),
                              currencyId = ''RUR''\<rparr>\<rparr>)"
  by (simp add: market_price_entry_def price_conversion_spec int_of_str_empty
        int_of_str_digits spec_price_normalize_digits del: price_conversion.simps)

lemma market_price_entry_error:
  "market_price_entry c x = Inl e \<Longrightarrow>
   price_conversion x = Inl e \<or> (price_conversion x = Inr [] \<and> e = ValueError)"
proof (cases x)
  case (PStr s)
  assume "market_price_entry c x = Inl e"
  with PStr show ?thesis
    by (auto simp: market_price_entry_str price_conversion_spec simp del: price_conversion.simps
          split: if_splits)
next
  case (PInt i)
  assume "market_price_entry c x = Inl e"
  with PInt show ?thesis by (simp add: market_price_entry_def)
next
  case PNone
  assume "market_price_entry c x = Inl e"
  with PNone show ?thesis by (simp add: market_price_entry_def)
qed

text \<open>
  C4, as the code has it. Either \<open>create_prices\<close> returns, and then its entries are
  those of the feed rows whose code is listed, in feed order, so that a code has an entry
  exactly when it is both in the feed and in the offer list (none for a channel-only
  code); or it raises, and then a feed row with a listed code has a price that cannot be
  converted: a cell that is not a string and, in the market module, also a text with no
  digit before its first full stop, on which \<open>int\<close> raises \<open>ValueError\<close>. The seller's
  \<open>create_prices\<close> returns on every feed whose price cells are strings, the market's on
  every feed whose price cells are strings with a digit before the first full stop.
\<close>

theorem create_prices_matches:
  "(case seller_create_prices feed offer_ids of
      Inr prices \<Rightarrow>
        map offer_id prices = filter (\<lambda>c. c \<in> set offer_ids) (feed_codes feed)
        \<and> (\<forall>c. c \<in> set (map offer_id prices) \<longleftrightarrow> c \<in> set (feed_codes feed) \<and> c \<in> set offer_ids)
    | Inl e \<Rightarrow>
        (\<exists>w\<in>set feed. py_str (Kod w) \<in> set offer_ids \<and> price_conversion (Tsena w) = Inl e))
   \<and> (list_all (\<lambda>w. \<exists>s. Tsena w = PStr s) feed
        \<longrightarrow> (\<exists>prices. seller_create_prices feed offer_ids = Inr prices))
   \<and> (case market_create_prices feed offer_ids of
      Inr prices \<Rightarrow>
        map price_id prices = filter (\<lambda>c. c \<in> set offer_ids) (feed_codes feed)
        \<and> (\<forall>c. c \<in> set (map price_id prices) \<longleftrightarrow> c \<in> set (feed_codes feed) \<and> c \<in> set offer_ids)
    | Inl e \<Rightarrow>
        (\<exists>w\<in>set feed. py_str (Kod w) \<in> set offer_ids
            \<and> (price_conversion (Tsena w) = Inl e
                 \<or> price_conversion (Tsena w) = Inr [] \<and> e = ValueError)))
   \<and> (list_all (\<lambda>w. \<exists>s. Tsena w = PStr s \<and> spec_price_normalize s \<noteq> []) feed
        \<longrightarrow> (\<exists>prices. market_create_prices feed offer_ids = Inr prices))"
proof (intro conjI)
  show "case seller_create_prices feed offer_ids of
      Inr prices \<Rightarrow>
        map offer_id prices = filter (\<lambda>c. c \<in> set offer_ids) (feed_codes feed)
        \<and> (\<forall>c. c \<in> set (map offer_id prices) \<longleftrightarrow> c \<in> set (feed_codes feed) \<and> c \<in> set offer_ids)
    | Inl e \<Rightarrow>
        (\<exists>w\<in>set feed. py_str (Kod w) \<in> set offer_ids \<and> price_conversion (Tsena w) = Inl e)"
  proof (cases "seller_create_prices feed offer_ids")
    case (Inl e)
    then have "prices_loop seller_price_entry feed offer_ids [] = Inl e"
      by (simp add: seller_create_prices_def)
    from prices_loop_error[OF this] Inl show ?thesis
      by (simp add: seller_price_entry_error)
  next
    case (Inr prices)
    then have "prices_loop seller_price_entry feed offer_ids [] = Inr prices"
      by (simp add: seller_create_prices_def)
    from prices_loop_codes[of seller_price_entry offer_id, OF seller_price_key this]
    have "map offer_id prices = filter (\<lambda>c. c \<in> set offer_ids) (feed_codes feed)" .
    then show ?thesis using Inr by auto
  qed
  show "list_all (\<lambda>w. \<exists>s. Tsena w = PStr s) feed
        \<longrightarrow> (\<exists>prices. seller_create_prices feed offer_ids = Inr prices)"
  proof
    assume str: "list_all (\<lambda>w. \<exists>s. Tsena w = PStr s) feed"
    show "\<exists>prices. seller_create_prices feed offer_ids = Inr prices"
    proof (cases "seller_create_prices feed offer_ids")
      case (Inl e)
      then have "prices_loop seller_price_entry feed offer_ids [] = Inl e"
        by (simp add: seller_create_prices_def)
      from prices_loop_error[OF this] obtain w where
        w: "w \<in> set feed" "price_conversion (Tsena w) = Inl e"
        by (auto simp: seller_price_entry_error)
      from str w(1) obtain s where "Tsena w = PStr s" unfolding list_all_iff by blast
      with w(2) show ?thesis by (simp add: price_conversion_spec del: price_conversion.simps)
    next
      case (Inr prices)
      then show ?thesis by blast
    qed
  qed
  show "case market_create_prices feed offer_ids of
      Inr prices \<Rightarrow>
        map price_id prices = filter (\<lambda>c. c \<in> set offer_ids) (feed_codes feed)
        \<and> (\<forall>c. c \<in> set (map price_id prices) \<longleftrightarrow> c \<in> set (feed_codes feed) \<and> c \<in> set offer_ids)
    | Inl e \<Rightarrow>
        (\<exists>w\<in>set feed. py_str (Kod w) \<in> set offer_ids
            \<and> (price_conversion (Tsena w) = Inl e
                 \<or> price_conversion (Tsena w) = Inr [] \<and> e = ValueError))"
  proof (cases "market_create_prices feed offer_ids")
    case (Inl e)
    then have "prices_loop market_price_entry feed offer_ids [] = Inl e"
      by (simp add: market_create_prices_def)
    from prices_loop_error[OF this] obtain w where
      w: "w \<in> set feed" "py_str (Kod w) \<in> set offer_ids"
         "market_price_entry (py_str (Kod w)) (Tsena w) = Inl e"
      by blast
    from market_price_entry_error[OF w(3)] w(1,2) Inl show ?thesis by auto
  next
    case (Inr prices)
    then have "prices_loop market_price_entry feed offer_ids [] = Inr prices"
      by (simp add: market_create_prices_def)
    from prices_loop_codes[of market_price_entry price_id, OF market_price_key this]
    have "map price_id prices = filter (\<lambda>c. c \<in> set offer_ids) (feed_codes feed)" .
    then show ?thesis using Inr by auto
  qed
  show "list_all (\<lambda>w. \<exists>s. Tsena w = PStr s \<and> spec_price_normalize s \<noteq> []) feed
        \<longrightarrow> (\<exists>prices. market_create_prices feed offer_ids = Inr prices)"
  proof
    assume str: "list_all (\<lambda>w. \<exists>s. Tsena w = PStr s \<and> spec_price_normalize s \<noteq> []) feed"
    show "\<exists>prices. market_create_prices feed offer_ids = Inr prices"
    proof (cases "market_create_prices feed offer_ids")
      case (Inl e)
      then have "prices_loop market_price_entry feed offer_ids [] = Inl e"
        by (simp add: market_create_prices_def)
      from prices_loop_error[OF this] obtain w where
        w: "w \<in> set feed" "market_price_entry (py_str (Kod w)) (Tsena w) = Inl e"
        by blast
      from str w(1) obtain s where "Tsena w = PStr s" "spec_price_normalize s \<noteq> []"
        unfolding list_all_iff by blast
      with w(2) show ?thesis by (simp add: market_price_entry_str)
    next
      case (Inr prices)
      then show ?thesis by blast
    qed
  qed
qed

theorem create_prices_matches_witness:
  "seller_create_prices
     [\<lparr>Kod = PStr ''123'', Kolichestvo = PStr ''>10'', Tsena = PStr ''1000.00 p.''\<rparr>,
      \<lparr>Kod = PStr ''456'', Kolichestvo = PStr ''1'', Tsena = PStr ''2000.00 p.''\<rparr>]
     [''123'', ''456'', ''789'']
   = Inr [\<lparr>offer_id = ''123'', auto_action_enabled = ''UNKNOWN'', currency_code = ''RUB'',
            old_price = ''0'', price = ''1000''\<rparr>,
          \<lparr>offer_id = ''456'', auto_action_enabled = ''UNKNOWN'', currency_code = ''RUB'',
            old_price = ''0'', price = ''2000''\<rparr>]
   \<and> list_all (\<lambda>w. \<exists>s. Tsena w = PStr s)
        [\<lparr>Kod = PStr ''123'', Kolichestvo = PStr ''>10'', Tsena = PStr ''1000.00 p.''\<rparr>,
         \<lparr>Kod = PStr ''456'', Kolichestvo = PStr ''1'', Tsena = PStr ''2000.00 p.''\<rparr>]
   \<and> [''123'', ''456'']
       = filter (\<lambda>c. c \<in> set [''123'', ''456'', ''789''])
           (feed_codes
             [\<lparr>Kod = PStr ''123'', Kolichestvo = PStr ''>10'', Tsena = PStr ''1000.00 p.''\<rparr>,
              \<lparr>Kod = PStr ''456'', Kolichestvo = PStr ''1'', Tsena = PStr ''2000.00 p.''\<rparr>])
   \<and> market_create_prices
        [\<lparr>Kod = PStr ''123'', Kolichestvo = PStr ''>10'', Tsena = PStr ''1000.00 p.''\<rparr>,
         \<lparr>Kod = PStr ''456'', Kolichestvo = PStr ''1'', Tsena = PStr ''2000.00 p.''\<rparr>]
        [''123'', ''456'', ''789'']
       = Inr [\<lparr>price_id = ''123'', price_body = \<lparr>price_value = 1000, currencyId = ''RUR''\<rparr>\<rparr>,
              \<lparr>price_id = ''456'', price_body = \<lparr>price_value = 2000, currencyId = ''RUR''\<rparr>\<rparr>]"
  using create_prices_matches[of
      "[\<lparr>Kod = PStr ''123'', Kolichestvo = PStr ''>10'', Tsena = PStr ''1000.00 p.''\<rparr>,
        \<lparr>Kod = PStr ''456'', Kolichestvo = PStr ''1'', Tsena = PStr ''2000.00 p.''\<rparr>]"
      "[''123'', ''456'', ''789'']"]
  by (simp add: run_defs)

theorem market_create_prices_raises_counterexample:
  "market_create_prices
     [\<lparr>Kod = PStr ''123'', Kolichestvo = PStr ''5'',
       Tsena = PStr ([CHR 0xD1, CHR 0x80, CHR 0xD1, CHR 0x83, CHR 0xD0, CHR 0xB1] @ ''.'')\<rparr>]
     [''123'']
   = Inl ValueError"
  by (simp add: run_defs)

text \<open>
  C7 fails on the seller's \<open>create_prices\<close>: for a listed code whose price text has no
  digit before the first full stop (here the rouble abbreviation alone) it returns an
  entry whose price is the empty string and raises nothing, while the market's
  \<open>create_prices\<close> raises \<open>ValueError\<close> on the same row.
\<close>

theorem seller_create_prices_emits_empty_price:
  "seller_create_prices
     [\<lparr>Kod = PStr ''123'', Kolichestvo = PStr ''5'',
       Tsena = PStr ([CHR 0xD1, CHR 0x80, CHR 0xD1, CHR 0x83, CHR 0xD0, CHR 0xB1] @ ''.'')\<rparr>]
     [''123'']
   = Inr [\<lparr>offer_id = ''123'', auto_action_enabled = ''UNKNOWN'', currency_code = ''RUB'',
            old_price = ''0'', price = []\<rparr>]"
  by (simp add: run_defs)

subsection \<open>Uploads\<close>

lemma submit_log:
  "submit net update chunks log = (r, log') \<Longrightarrow>
   \<exists>k\<le>length chunks. log' = log @ map update (take k chunks)
      \<and> ((\<forall>l c. net l c = None) \<longrightarrow> k = length chunks \<and> r = None)"
proof (induction chunks arbitrary: log)
  case Nil
  then show ?case by auto
next
  case (Cons c cs)
  show ?case
  proof (cases "net log (update c)")
    case (Some e)
    with Cons.prems have "log' = log @ map update (take 1 (c # cs))" by auto
    moreover have "\<not> (\<forall>l c. net l c = None)" using Some by auto
    ultimately show ?thesis by (intro exI[of _ 1]) auto
  next
    case None
    with Cons.prems have "submit net update cs (log @ [update c]) = (r, log')" by simp
    from Cons.IH[OF this] obtain k where
      k: "k \<le> length cs" "log' = (log @ [update c]) @ map update (take k cs)"
         "(\<forall>l c. net l c = None) \<longrightarrow> k = length cs \<and> r = None"
      by blast
    then show ?thesis by (intro exI[of _ "Suc k"]) auto
  qed
qed

lemma upload_log:
  assumes "0 < n" "upload net update entries n log = (r, log')"
  shows "\<exists>calls. log' = log @ calls \<and> sent_in_batches net update (nat n) entries calls
      \<and> ((\<forall>l c. net l c = None) \<longrightarrow> r = None)"
proof -
  let ?cs = "map (\<lambda>k. slice entries k (k + n)) (range_up 0 (int (length entries)) n)"
  from assms have "submit net update ?cs log = (r, log')"
    by (simp add: upload_def divide_pos)
  from submit_log[OF this] obtain k where
    k: "k \<le> length ?cs" "log' = log @ map update (take k ?cs)"
       "(\<forall>l c. net l c = None) \<longrightarrow> k = length ?cs \<and> r = None"
    by blast
  with divide_batches[OF assms(1), of entries] show ?thesis
    unfolding sent_in_batches_def by blast
qed

lemma upload_empty: "0 < n \<Longrightarrow> upload net update [] n log = (None, log)"
  by (simp add: upload_def divide_def py_range_def range_up_Nil)

lemma no_price_call: "UpdatePrice batch \<notin> set (map UpdateStocks cs)"
  by auto

text \<open>
  C3. In the full sync of seller.py the list that \<open>create_stocks\<close> has just reduced is
  passed on to \<open>create_prices\<close>. For a duplicate-free offer list no feed code is left
  in it, so whenever \<open>create_stocks\<close> returns, \<open>create_prices\<close> on the reduced list
  returns the empty list, and \<open>main\<close> never posts a price batch.
\<close>

theorem full_sync_sends_no_price:
  assumes "distinct offer_ids"
  shows "(\<forall>stocks ids'. seller_create_stocks feed offer_ids = (Inr stocks, ids')
            \<longrightarrow> seller_create_prices feed ids' = Inr [])
       \<and> (\<forall>batch. UpdatePrice batch \<notin> set (snd (seller_main net feed offer_ids)))"
proof -
  have empty: "seller_create_prices feed ids' = Inr []"
    if run: "seller_create_stocks feed offer_ids = (Inr stocks, ids')" for stocks ids'
  proof -
    from run have "create_stocks seller_stock_entry feed offer_ids = (Inr stocks, ids')"
      by (simp add: seller_create_stocks_def)
    from create_stocks_ok(5)[of offer_id seller_stock_entry stock, OF seller_key assms this]
    have "ids' = filter (\<lambda>c. c \<notin> set (feed_codes feed)) offer_ids" .
    then have "\<forall>w\<in>set feed. py_str (Kod w) \<notin> set ids'"
      by (auto simp: feed_codes_def)
    then show ?thesis
      by (simp add: seller_create_prices_def prices_loop_none)
  qed
  have "UpdatePrice batch \<notin> set (snd (seller_main net feed offer_ids))" for batch
  proof (cases "seller_create_stocks feed offer_ids")
    case (Pair r ids')
    show ?thesis
    proof (cases r)
      case (Inl e)
      with Pair show ?thesis by (simp add: seller_main_def)
    next
      case (Inr stocks)
      obtain r2 log where up: "upload net UpdateStocks stocks 100 [] = (r2, log)"
        by (cases "upload net UpdateStocks stocks 100 []") auto
      from upload_log[OF _ up] obtain calls where
        "log = calls" "sent_in_batches net UpdateStocks (nat 100) stocks calls"
        by auto
      then have nolog: "UpdatePrice batch \<notin> set log"
        unfolding sent_in_batches_def by auto
      show ?thesis
      proof (cases r2)
        case (Some e)
        with Pair Inr up nolog show ?thesis by (simp add: seller_main_def)
      next
        case None
        have "upload net UpdatePrice ([] :: seller_price list) 900 log = (None, log)"
          by (simp add: upload_empty)
        with None Pair Inr up nolog empty[of stocks ids'] show ?thesis
          by (simp add: seller_main_def)
      qed
    qed
  qed
  with empty show ?thesis by blast
qed

theorem full_sync_sends_no_price_witness:
  "distinct [''123'', ''456'', ''789'']
   \<and> seller_create_stocks
        [\<lparr>Kod = PStr ''123'', Kolichestvo = PStr ''>10'', Tsena = PStr ''1000.00 p.''\<rparr>,
         \<lparr>Kod = PStr ''456'', Kolichestvo = PStr ''1'', Tsena = PStr ''2000.00 p.''\<rparr>]
        [''123'', ''456'', ''789'']
       = (Inr [\<lparr>offer_id = ''123'', stock = 100\<rparr>, \<lparr>offer_id = ''456'', stock = 0\<rparr>,
               \<lparr>offer_id = ''789'', stock = 0\<rparr>], [''789''])
   \<and> seller_create_prices
        [\<lparr>Kod = PStr ''123'', Kolichestvo = PStr ''>10'', Tsena = PStr ''1000.00 p.''\<rparr>,
         \<lparr>Kod = PStr ''456'', Kolichestvo = PStr ''1'', Tsena = PStr ''2000.00 p.''\<rparr>]
        [''789'']
       = Inr []"
  using full_sync_sends_no_price[of "[''123'', ''456'', ''789'']"
      "[\<lparr>Kod = PStr ''123'', Kolichestvo = PStr ''>10'', Tsena = PStr ''1000.00 p.''\<rparr>,
        \<lparr>Kod = PStr ''456'', Kolichestvo = PStr ''1'', Tsena = PStr ''2000.00 p.''\<rparr>]"]
  by (simp add: run_defs)








end
